theory Spec2Isabelle
  imports Complex_Main
begin

section \<open>The PEBBLE state-entropy reward: data model\<close>

text \<open>
  The development embeds \<^verbatim>\<open>src/imitation/algorithms/pebble/entropy_reward.py\<close>.
  A Python object is its attribute dictionary, so an instance of
  \<^verbatim>\<open>PebbleStateEntropyReward\<close> is a map from attribute names to values; reading an
  attribute that is absent raises \<^verbatim>\<open>AttributeError\<close>.  Every method returns the object
  it leaves behind together with its result, and the result is an error value when the
  method raises: the object is still there after an exception.
\<close>

datatype PebbleRewardPhase =
  LEARNING_START | UNSUPERVISED_EXPLORATION | POLICY_AND_REWARD_LEARNING

text \<open>
  A numpy array is its shape and its elements in row-major (C) order.  The element type
  is left open: the class never looks at an element.
\<close>

record 'e ndarray =
  shape :: "nat list"
  elems :: "'e list"

text \<open>
  The collaborators the class receives: the view of the replay buffer, whose
  \<^verbatim>\<open>observations\<close> property gives the observations array, and the wrapper that
  \<^verbatim>\<open>on_replay_buffer_initialized\<close> reads the view and the shape from.
\<close>

record 'e ReplayBufferView =
  observations :: "'e ndarray"

record 'e ReplayBufferRewardWrapper =
  buffer_view :: "'e ReplayBufferView"
  obs_shape :: "int list"

text \<open>
  Exceptions.  \<open>ValueError\<close> carries its message.  \<open>ReshapeError\<close> is the
  \<^verbatim>\<open>ValueError\<close> that numpy's \<^verbatim>\<open>reshape\<close> raises (its message spells out the sizes and
  is not modelled).  \<open>Raised e\<close> is an exception \<open>e\<close> that comes out of a collaborator
  (the learned reward function, the entropy estimator, the running normaliser) and
  passes through the class unchanged.
\<close>

datatype 'x error =
  AssertionError
| ValueError string
| TypeError
| AttributeError string
| KeyError string
| ReshapeError
| Raised 'x

type_synonym ('e, 'x) RewardFn =
  "'e ndarray \<Rightarrow> 'e ndarray \<Rightarrow> 'e ndarray \<Rightarrow> 'e ndarray \<Rightarrow> 'x + 'e ndarray"

text \<open>
  \<^verbatim>\<open>util.compute_state_entropy(obs, all_obs, k)\<close> and \<^verbatim>\<open>RunningNorm.forward(x)\<close> live
  outside the file; the methods that call them take them as parameters.  The normaliser
  is stateful: it returns its result (or the exception it raised) and the statistics it
  leaves behind.
\<close>

type_synonym ('e, 'x) estimator =
  "'e ndarray \<Rightarrow> 'e ndarray \<Rightarrow> int \<Rightarrow> 'x + 'e ndarray"

type_synonym ('e, 'n, 'x) normalizer =
  "'n \<Rightarrow> 'e ndarray \<Rightarrow> ('x + 'e ndarray) \<times> 'n"

datatype ('e, 'n, 'x) val =
  VNone
| VInt int
| VPhase PebbleRewardPhase
| VRewardFn "('e, 'x) RewardFn"
| VRunningNorm 'n
| VView "'e ReplayBufferView"
| VTuple "int list"

type_synonym ('e, 'n, 'x) obj = "string \<rightharpoonup> ('e, 'n, 'x) val"

section \<open>numpy's reshape\<close>

text \<open>
  \<^verbatim>\<open>a.reshape(newshape)\<close>: at most one entry of \<open>newshape\<close> may be \<open>-1\<close>, no entry may be
  below \<open>-1\<close>; the unknown entry is the array's size divided by the product of the others,
  which must divide it and must not be zero; without an unknown entry the product must be
  the size.  The elements keep their row-major order.  The result is \<open>None\<close> where numpy
  raises.
\<close>

definition reshape :: "'e ndarray \<Rightarrow> int list \<Rightarrow> 'e ndarray option" where
  "reshape a newshape =
     (let total = int (prod_list (shape a));
          known = prod_list (filter (\<lambda>d. d \<noteq> - 1) newshape)
      in if list_ex (\<lambda>d. d < - 1) newshape then None
         else case filter (\<lambda>d. d = - 1) newshape of
           [] \<Rightarrow> if known = total
                 then Some \<lparr>shape = map nat newshape, elems = elems a\<rparr>
                 else None
         | [u] \<Rightarrow> if known = 0 \<or> total mod known \<noteq> 0 then None
                  else Some \<lparr>shape = map (\<lambda>d. if d = - 1 then nat (total div known) else nat d)
                                          newshape,
                             elems = elems a\<rparr>
         | u # v # rest \<Rightarrow> None)"

section \<open>The class\<close>

text \<open>
  \<^verbatim>\<open>__init__(self, learned_reward_fn, nearest_neighbor_k=5)\<close>.  The first parameter is the
  value of \<^verbatim>\<open>RunningNorm(1)\<close>; an omitted \<open>nearest_neighbor_k\<close> is \<open>None\<close> here.
\<close>

definition init ::
  "'n \<Rightarrow> ('e, 'x) RewardFn \<Rightarrow> int option \<Rightarrow> ('e, 'n, 'x) obj" where
  "init RunningNorm_1 learned_reward_fn nearest_neighbor_k =
     [''trained_reward_fn'' \<mapsto> VRewardFn learned_reward_fn,
      ''nearest_neighbor_k'' \<mapsto>
         VInt (case nearest_neighbor_k of None \<Rightarrow> 5 | Some k \<Rightarrow> k),
      ''entropy_stats'' \<mapsto> VRunningNorm RunningNorm_1,
      ''state'' \<mapsto> VPhase LEARNING_START,
      ''replay_buffer_view'' \<mapsto> VNone,
      ''obs_shape'' \<mapsto> VNone]"

definition set_replay_buffer ::
  "('e, 'n, 'x) obj \<Rightarrow> 'e ReplayBufferView \<Rightarrow> int list \<Rightarrow> ('e, 'n, 'x) obj" where
  "set_replay_buffer self replay_buffer shp =
     self(''replay_buffer_view'' \<mapsto> VView replay_buffer, ''obs_shape'' \<mapsto> VTuple shp)"

definition on_replay_buffer_initialized ::
  "('e, 'n, 'x) obj \<Rightarrow> 'e ReplayBufferRewardWrapper \<Rightarrow> ('e, 'n, 'x) obj" where
  "on_replay_buffer_initialized self replay_buffer =
     set_replay_buffer self (buffer_view replay_buffer) (obs_shape replay_buffer)"

definition unsupervised_exploration_start ::
  "('e, 'n, 'x) obj \<Rightarrow> ('x error + unit) \<times> ('e, 'n, 'x) obj" where
  "unsupervised_exploration_start self =
     (case self ''state'' of
        None \<Rightarrow> (Inl (AttributeError ''state''), self)
      | Some v \<Rightarrow>
          if v = VPhase LEARNING_START
          then (Inr (), self(''state'' \<mapsto> VPhase UNSUPERVISED_EXPLORATION))
          else (Inl AssertionError, self))"

definition unsupervised_exploration_finish ::
  "('e, 'n, 'x) obj \<Rightarrow> ('x error + unit) \<times> ('e, 'n, 'x) obj" where
  "unsupervised_exploration_finish self =
     (case self ''state'' of
        None \<Rightarrow> (Inl (AttributeError ''state''), self)
      | Some v \<Rightarrow>
          if v = VPhase UNSUPERVISED_EXPLORATION
          then (Inr (), self(''state'' \<mapsto> VPhase POLICY_AND_REWARD_LEARNING))
          else (Inl AssertionError, self))"

abbreviation usage_error :: "'x error" where
  "usage_error \<equiv>
     ValueError ''Replay buffer must be supplied before entropy reward can be used''"

text \<open>
  \<^verbatim>\<open>_entropy_reward(self, state)\<close>.  The conversions \<^verbatim>\<open>th.tensor(...)\<close> and \<^verbatim>\<open>.numpy()\<close>
  change the container, not the values, and are the identity here.  The attributes are
  read in the order the source reads them.
\<close>

definition entropy_reward ::
  "('e, 'x) estimator \<Rightarrow> ('e, 'n, 'x) normalizer \<Rightarrow> ('e, 'n, 'x) obj \<Rightarrow> 'e ndarray
     \<Rightarrow> ('x error + 'e ndarray) \<times> ('e, 'n, 'x) obj" where
  "entropy_reward compute_state_entropy forward self state =
     (case self ''replay_buffer_view'' of
        None \<Rightarrow> (Inl (AttributeError ''replay_buffer_view''), self)
      | Some VNone \<Rightarrow> (Inl usage_error, self)
      | Some (VView view) \<Rightarrow>
          (case self ''obs_shape'' of
             None \<Rightarrow> (Inl (AttributeError ''obs_shape''), self)
           | Some (VTuple shp) \<Rightarrow>
               (case reshape (observations view) (- 1 # shp) of
                  None \<Rightarrow> (Inl ReshapeError, self)
                | Some all_observations \<Rightarrow>
                    (case self ''nearest_neighbor_k'' of
                       None \<Rightarrow> (Inl (AttributeError ''nearest_neighbor_k''), self)
                     | Some (VInt k) \<Rightarrow>
                         (case compute_state_entropy state all_observations k of
                            Inl e \<Rightarrow> (Inl (Raised e), self)
                          | Inr entropies \<Rightarrow>
                              (case self ''entropy_stats'' of
                                 None \<Rightarrow> (Inl (AttributeError ''entropy_stats''), self)
                               | Some (VRunningNorm stats) \<Rightarrow>
                                   (case forward stats entropies of
                                      (Inl e, stats') \<Rightarrow>
                                        (Inl (Raised e),
                                         self(''entropy_stats'' \<mapsto> VRunningNorm stats'))
                                    | (Inr normalized_entropies, stats') \<Rightarrow>
                                        (Inr normalized_entropies,
                                         self(''entropy_stats'' \<mapsto> VRunningNorm stats')))
                               | Some _ \<Rightarrow> (Inl (AttributeError ''forward''), self)))
                     | Some _ \<Rightarrow> (Inl TypeError, self)))
           | Some _ \<Rightarrow> (Inl TypeError, self))
      | Some _ \<Rightarrow> (Inl (AttributeError ''observations''), self))"

text \<open>\<^verbatim>\<open>__call__(self, state, action, next_state, done)\<close>.\<close>

definition call ::
  "('e, 'x) estimator \<Rightarrow> ('e, 'n, 'x) normalizer \<Rightarrow> ('e, 'n, 'x) obj
     \<Rightarrow> 'e ndarray \<Rightarrow> 'e ndarray \<Rightarrow> 'e ndarray \<Rightarrow> 'e ndarray
     \<Rightarrow> ('x error + 'e ndarray) \<times> ('e, 'n, 'x) obj" where
  "call compute_state_entropy forward self state action next_state done =
     (case self ''state'' of
        None \<Rightarrow> (Inl (AttributeError ''state''), self)
      | Some v \<Rightarrow>
          if v = VPhase UNSUPERVISED_EXPLORATION
          then entropy_reward compute_state_entropy forward self state
          else
            (case self ''trained_reward_fn'' of
               None \<Rightarrow> (Inl (AttributeError ''trained_reward_fn''), self)
             | Some (VRewardFn f) \<Rightarrow>
                 (case f state action next_state done of
                    Inl e \<Rightarrow> (Inl (Raised e), self)
                  | Inr r \<Rightarrow> (Inr r, self))
             | Some _ \<Rightarrow> (Inl TypeError, self)))"

text \<open>
  \<^verbatim>\<open>__getstate__\<close> copies the attribute dictionary and deletes one key (\<^verbatim>\<open>del\<close> raises
  \<^verbatim>\<open>KeyError\<close> when the key is absent); \<^verbatim>\<open>__setstate__\<close> updates the dictionary of the
  object it is called on with the saved one and then clears the view.
\<close>

definition getstate :: "('e, 'n, 'x) obj \<Rightarrow> 'x error + ('e, 'n, 'x) obj" where
  "getstate self =
     (case self ''replay_buffer_view'' of
        None \<Rightarrow> Inl (KeyError ''replay_buffer_view'')
      | Some _ \<Rightarrow> Inr (self(''replay_buffer_view'' := None)))"

definition setstate :: "('e, 'n, 'x) obj \<Rightarrow> ('e, 'n, 'x) obj \<Rightarrow> ('e, 'n, 'x) obj" where
  "setstate self state = (self ++ state)(''replay_buffer_view'' \<mapsto> VNone)"

text \<open>
  Saving and loading with pickle: the saved state is what \<^verbatim>\<open>__getstate__\<close> returns, and
  loading calls \<^verbatim>\<open>__setstate__\<close> with it on an object of the class that has no attribute
  yet.
\<close>

definition reload :: "('e, 'n, 'x) obj \<Rightarrow> 'x error + ('e, 'n, 'x) obj" where
  "reload self =
     (case getstate self of
        Inl e \<Rightarrow> Inl e
      | Inr state \<Rightarrow> Inr (setstate Map.empty state))"

section \<open>Instances, operations and runs\<close>

text \<open>
  An instance has the six attributes \<^verbatim>\<open>__init__\<close> gives it, each holding a value of the
  kind the class puts there: the view and the shape are \<open>None\<close> or what
  \<^verbatim>\<open>set_replay_buffer\<close> stored.
\<close>

definition is_instance :: "('e, 'n, 'x) obj \<Rightarrow> bool" where
  "is_instance self \<longleftrightarrow>
     (case self ''trained_reward_fn'' of Some (VRewardFn f) \<Rightarrow> True | _ \<Rightarrow> False) \<and>
     (case self ''nearest_neighbor_k'' of Some (VInt k) \<Rightarrow> True | _ \<Rightarrow> False) \<and>
     (case self ''entropy_stats'' of Some (VRunningNorm n) \<Rightarrow> True | _ \<Rightarrow> False) \<and>
     (case self ''state'' of Some (VPhase p) \<Rightarrow> True | _ \<Rightarrow> False) \<and>
     (case self ''replay_buffer_view'' of
        Some VNone \<Rightarrow> True | Some (VView v) \<Rightarrow> True | _ \<Rightarrow> False) \<and>
     (case self ''obs_shape'' of
        Some VNone \<Rightarrow> True | Some (VTuple s) \<Rightarrow> True | _ \<Rightarrow> False)"

definition phase_of :: "('e, 'n, 'x) obj \<Rightarrow> PebbleRewardPhase option" where
  "phase_of self = (case self ''state'' of Some (VPhase p) \<Rightarrow> Some p | _ \<Rightarrow> None)"

text \<open>The order of the phases in the enumeration.\<close>

fun rank :: "PebbleRewardPhase \<Rightarrow> nat" where
  "rank LEARNING_START = 1"
| "rank UNSUPERVISED_EXPLORATION = 2"
| "rank POLICY_AND_REWARD_LEARNING = 3"

text \<open>
  The calls a client makes on a live instance, and the object each leaves behind,
  whether it returned or raised.  \<open>GetState\<close> is \<^verbatim>\<open>__getstate__\<close>, which changes nothing;
  \<open>SaveAndLoad\<close> saves the instance and goes on with the loaded copy (with the instance
  itself where saving raises).
\<close>

datatype 'e operation =
  OnReplayBufferInitialized "'e ReplayBufferRewardWrapper"
| SetReplayBuffer "'e ReplayBufferView" "int list"
| UnsupervisedExplorationStart
| UnsupervisedExplorationFinish
| Call "'e ndarray" "'e ndarray" "'e ndarray" "'e ndarray"
| EntropyReward "'e ndarray"
| GetState
| SaveAndLoad

fun perform ::
  "('e, 'x) estimator \<Rightarrow> ('e, 'n, 'x) normalizer \<Rightarrow> ('e, 'n, 'x) obj \<Rightarrow> 'e operation
     \<Rightarrow> ('e, 'n, 'x) obj" where
  "perform est fwd self (OnReplayBufferInitialized w) = on_replay_buffer_initialized self w"
| "perform est fwd self (SetReplayBuffer v s) = set_replay_buffer self v s"
| "perform est fwd self UnsupervisedExplorationStart =
     snd (unsupervised_exploration_start self)"
| "perform est fwd self UnsupervisedExplorationFinish =
     snd (unsupervised_exploration_finish self)"
| "perform est fwd self (Call s a n d) = snd (call est fwd self s a n d)"
| "perform est fwd self (EntropyReward s) = snd (entropy_reward est fwd self s)"
| "perform est fwd self GetState = self"
| "perform est fwd self SaveAndLoad = (case reload self of Inl e \<Rightarrow> self | Inr loaded \<Rightarrow> loaded)"

definition run ::
  "('e, 'x) estimator \<Rightarrow> ('e, 'n, 'x) normalizer \<Rightarrow> ('e, 'n, 'x) obj \<Rightarrow> 'e operation list
     \<Rightarrow> ('e, 'n, 'x) obj" where
  "run est fwd self ops = foldl (perform est fwd) self ops"

section \<open>The running normaliser, and stand-ins for the other collaborators\<close>

text \<open>
  Modelled from the spec: \<^verbatim>\<open>RunningNorm\<close> of \<^verbatim>\<open>imitation.util.networks\<close>, which is not
  among the sources.  The spec: it ``maintains running mean and variance (or an
  equivalent incremental estimator) over a single scalar channel''; it starts ``empty
  (zero samples)''; \<^verbatim>\<open>forward(batch)\<close> ``updates the running statistics with batch's
  values, then returns (batch - runningMean) / runningStd (with an epsilon or floor to
  avoid division by zero)''.  The statistics are the number of samples seen and their
  mean and (population) variance, over the reals; the epsilon is a parameter.  The spec
  does not say what an empty batch gives: here it is returned as it is and the
  statistics stay.
\<close>

record RunningNorm =
  n_samples :: nat
  running_mean :: real
  running_var :: real

definition RunningNorm_new :: RunningNorm where
  "RunningNorm_new = \<lparr>n_samples = 0, running_mean = 0, running_var = 1\<rparr>"

definition update_stats :: "RunningNorm \<Rightarrow> real list \<Rightarrow> RunningNorm" where
  "update_stats stats batch =
     (let n = n_samples stats + length batch;
          mean = (real (n_samples stats) * running_mean stats + sum_list batch) / real n;
          squares = real (n_samples stats) * (running_var stats + (running_mean stats)\<^sup>2)
                      + sum_list (map (\<lambda>x. x\<^sup>2) batch)
      in \<lparr>n_samples = n, running_mean = mean, running_var = squares / real n - mean\<^sup>2\<rparr>)"

definition RunningNorm_forward :: "real \<Rightarrow> (real, RunningNorm, unit) normalizer" where
  "RunningNorm_forward eps stats batch =
     (if elems batch = [] then (Inr batch, stats)
      else let stats' = update_stats stats (elems batch)
           in (Inr (batch\<lparr>elems := map (\<lambda>x. (x - running_mean stats')
                                              / sqrt (running_var stats' + eps))
                                     (elems batch)\<rparr>),
               stats'))"

text \<open>
  Stand-ins for the collaborators that are handed in from outside, used where a property
  is checked on a concrete run: a batch of one-dimensional rows; a learned reward
  function that returns the four arrays it was called with, one after the other; an
  entropy estimator that returns the value of each query row as that row's entropy
  (whatever estimator is in use returns one fixed batch for a fixed query, fixed
  observations and fixed \<open>k\<close>).
\<close>

definition rows :: "real list \<Rightarrow> real ndarray" where
  "rows xs = \<lparr>shape = [length xs, 1], elems = xs\<rparr>"

definition stub_reward_fn :: "(real, unit) RewardFn" where
  "stub_reward_fn state action next_state done =
     Inr \<lparr>shape = [4], elems = elems state @ elems action @ elems next_state @ elems done\<rparr>"

definition stub_estimator :: "(real, unit) estimator" where
  "stub_estimator obs all_obs k = Inr obs"

text \<open>
  A fresh instance with the default \<open>k\<close>, bound to a buffer of six one-dimensional
  observations and moved into the exploration phase.
\<close>

definition six_observations :: "real ReplayBufferView" where
  "six_observations = \<lparr>observations = rows [0, 1, 2, 3, 4, 5]\<rparr>"

definition fresh :: "(real, RunningNorm, unit) obj" where
  "fresh = init RunningNorm_new stub_reward_fn None"

definition normalize :: "(real, RunningNorm, unit) normalizer" where
  "normalize = RunningNorm_forward (1 / 100000)"

definition exploring :: "(real, RunningNorm, unit) obj" where
  "exploring =
     snd (unsupervised_exploration_start (set_replay_buffer fresh six_observations [1]))"

text \<open>
  The same six observations as the buffer of two parallel environments stores them
  (three steps, two environments), and the exploring instance after one entropy reward
  for the query row \<open>0\<close>.
\<close>

definition six_observations_venv :: "real ReplayBufferView" where
  "six_observations_venv =
     \<lparr>observations = \<lparr>shape = [3, 2, 1], elems = [0, 1, 2, 3, 4, 5]\<rparr>\<rparr>"

definition warmed :: "(real, RunningNorm, unit) obj" where
  "warmed = snd (entropy_reward stub_estimator normalize exploring (rows [0]))"


section \<open>Frame lemmas\<close>

lemma entropy_reward_frame:
  "a \<noteq> ''entropy_stats'' \<Longrightarrow> snd (entropy_reward est fwd self s) a = self a"
  by (simp add: entropy_reward_def split: option.split val.split sum.split prod.split)

lemma call_frame:
  "a \<noteq> ''entropy_stats'' \<Longrightarrow> snd (call est fwd self s ac s' d) a = self a"
  by (simp add: call_def entropy_reward_frame split: option.split val.split sum.split)

lemma entropy_reward_unset:
  "self ''replay_buffer_view'' = Some VNone \<Longrightarrow>
   entropy_reward est fwd self s = (Inl usage_error, self)"
  by (simp add: entropy_reward_def)

lemma entropy_reward_usage_iff:
  "fst (entropy_reward est fwd self s) = Inl usage_error
     \<longleftrightarrow> self ''replay_buffer_view'' = Some VNone"
  by (auto simp: entropy_reward_def
      split: option.splits val.splits sum.splits prod.splits)

lemma exploring_eq:
  "exploring = fresh(''replay_buffer_view'' \<mapsto> VView six_observations,
      ''obs_shape'' \<mapsto> VTuple [1], ''state'' \<mapsto> VPhase UNSUPERVISED_EXPLORATION)"
  by (simp add: exploring_def unsupervised_exploration_start_def set_replay_buffer_def
      fresh_def init_def)

lemma reshape_six:
  "reshape (observations six_observations) [- 1, 1] = Some (rows [0, 1, 2, 3, 4, 5])"
  by (simp add: reshape_def rows_def six_observations_def)

section \<open>Reshaping, the pipeline and the buffer binding\<close>

lemma is_instanceE:
  assumes "is_instance self"
  obtains f k n p where
    "self ''trained_reward_fn'' = Some (VRewardFn f)"
    "self ''nearest_neighbor_k'' = Some (VInt k)"
    "self ''entropy_stats'' = Some (VRunningNorm n)"
    "self ''state'' = Some (VPhase p)"
    "self ''replay_buffer_view'' \<noteq> None"
  using assms unfolding is_instance_def
  by (auto split: option.splits val.splits)

lemma is_instance_upd_view:
  "is_instance self \<Longrightarrow> is_instance (self(''replay_buffer_view'' \<mapsto> VNone))"
  by (simp add: is_instance_def)

lemma reload_eq:
  "self ''replay_buffer_view'' = Some v \<Longrightarrow>
   reload self = Inr (self(''replay_buffer_view'' \<mapsto> VNone))"
  by (simp add: reload_def getstate_def setstate_def)

lemma entropy_reward_bound:
  assumes "self ''replay_buffer_view'' = Some (VView view)"
      and "self ''obs_shape'' = Some (VTuple shp)"
      and "self ''nearest_neighbor_k'' = Some (VInt k)"
      and "self ''entropy_stats'' = Some (VRunningNorm stats)"
  shows "entropy_reward est fwd self s =
           (case reshape (observations view) (- 1 # shp) of
              None \<Rightarrow> (Inl ReshapeError, self)
            | Some all_observations \<Rightarrow>
                (case est s all_observations k of
                   Inl e \<Rightarrow> (Inl (Raised e), self)
                 | Inr entropies \<Rightarrow>
                     (case fst (fwd stats entropies) of
                        Inl e \<Rightarrow> Inl (Raised e) | Inr r \<Rightarrow> Inr r,
                      self(''entropy_stats'' \<mapsto> VRunningNorm (snd (fwd stats entropies))))))"
  using assms by (simp add: entropy_reward_def split: option.split sum.split prod.split)

lemma filter_no_unknown:
  "filter (\<lambda>d. d = - 1) shp = [] \<Longrightarrow> \<not> list_ex (\<lambda>d. d < - 1) shp \<Longrightarrow>
   filter (\<lambda>d. d \<noteq> - 1) shp = shp \<and>
   map (\<lambda>d. if d = - 1 then n else nat d) shp = map nat shp \<and>
   list_all (\<lambda>d. 0 \<le> d) (shp :: int list)"
  by (induction shp) (auto split: if_splits)

lemma reshape_leading:
  assumes "reshape a (- 1 # shp) = Some b"
  shows "elems b = elems a \<and>
         shape b = nat (int (prod_list (shape a)) div prod_list shp) # map nat shp \<and>
         list_all (\<lambda>d. 0 \<le> d) shp \<and> prod_list shp \<noteq> 0 \<and>
         int (prod_list (shape a)) mod prod_list shp = 0"
proof -
  from assms have ex: "\<not> list_ex (\<lambda>d. d < - 1) shp"
    by (auto simp: reshape_def Let_def split: if_splits)
  from assms have nil: "filter (\<lambda>d. d = - 1) shp = []"
    by (auto simp: reshape_def Let_def split: if_splits list.splits)
  note f = filter_no_unknown[OF nil ex]
  from assms show ?thesis
    using ex nil f
    by (auto simp: reshape_def Let_def split: if_splits)
qed

lemma prod_list_nat:
  "list_all (\<lambda>d. 0 \<le> d) (shp :: int list) \<Longrightarrow> int (prod_list (map nat shp)) = prod_list shp"
  by (induction shp) auto

lemma reshape_size:
  assumes "reshape a (- 1 # shp) = Some b"
  shows "prod_list (shape b) = prod_list (shape a)"
proof -
  note r = reshape_leading[OF assms]
  let ?t = "int (prod_list (shape a))"
  have ge: "0 \<le> prod_list shp" using r prod_list_nat[of shp] by (metis of_nat_0_le_iff)
  have "int (prod_list (shape b)) = int (nat (?t div prod_list shp)) * prod_list shp"
    using r prod_list_nat[of shp] by simp
  also have "\<dots> = (?t div prod_list shp) * prod_list shp"
    using ge by (simp add: pos_imp_zdiv_nonneg_iff div_int_pos_iff)
  also have "\<dots> = ?t" using r by (simp add: mod_0_imp_dvd)
  finally show ?thesis by simp
qed

lemma reshape_cong:
  "elems a = elems b \<Longrightarrow> prod_list (shape a) = prod_list (shape b) \<Longrightarrow>
   reshape a newshape = reshape b newshape"
  by (simp add: reshape_def Let_def split: list.split)


lemma set_replay_buffer_overwrites:
  "set_replay_buffer (set_replay_buffer self v1 s1) v2 s2 = set_replay_buffer self v2 s2"
  by (simp add: set_replay_buffer_def)

lemma foldl_set_replay_buffer:
  "foldl (\<lambda>obj (v, s). set_replay_buffer obj v s) self (calls @ [(view, shp)])
     = set_replay_buffer self view shp"
proof (induction calls arbitrary: self)
  case Nil
  show ?case by simp
next
  case (Cons c calls)
  obtain v s where c: "c = (v, s)" by (cases c)
  have "foldl (\<lambda>obj (v, s). set_replay_buffer obj v s) self ((c # calls) @ [(view, shp)])
        = set_replay_buffer (set_replay_buffer self v s) view shp"
    using Cons.IH[of "set_replay_buffer self v s"] by (simp add: c)
  then show ?case by (simp add: set_replay_buffer_overwrites)
qed

lemma exploring_attrs:
  "exploring ''replay_buffer_view'' = Some (VView six_observations)"
  "exploring ''obs_shape'' = Some (VTuple [1])"
  "exploring ''nearest_neighbor_k'' = Some (VInt 5)"
  "exploring ''entropy_stats'' = Some (VRunningNorm RunningNorm_new)"
  "exploring ''state'' = Some (VPhase UNSUPERVISED_EXPLORATION)"
  "exploring ''trained_reward_fn'' = Some (VRewardFn stub_reward_fn)"
  by (simp_all add: exploring_eq fresh_def init_def)

lemma exploring_reward:
  "entropy_reward stub_estimator normalize exploring (rows [3]) =
     (Inr (rows [0]),
      exploring(''entropy_stats'' \<mapsto>
        VRunningNorm \<lparr>n_samples = 1, running_mean = 3, running_var = 0\<rparr>))"
  by (simp add: entropy_reward_bound[OF exploring_attrs(1-4)] reshape_six stub_estimator_def
      normalize_def RunningNorm_forward_def update_stats_def RunningNorm_new_def rows_def)

section \<open>Routing of the reward call\<close>

text \<open>
  C1.  \<^verbatim>\<open>__call__(state, action, next_state, done)\<close> returns what \<^verbatim>\<open>_entropy_reward(state)\<close>
  returns when the phase is \<open>UNSUPERVISED_EXPLORATION\<close>, and in the two other phases
  what the learned reward function returns on the same four arguments; in those phases
  the instance is left as it was.
\<close>

theorem call_routing:
  assumes "self ''state'' = Some (VPhase p)"
      and "self ''trained_reward_fn'' = Some (VRewardFn f)"
  shows "call est fwd self s a s' d =
           (if p = UNSUPERVISED_EXPLORATION then entropy_reward est fwd self s
            else (case f s a s' d of Inl e \<Rightarrow> Inl (Raised e) | Inr r \<Rightarrow> Inr r, self))"
  using assms by (simp add: call_def split: sum.split)

theorem call_routing_witness:
  "fresh ''state'' = Some (VPhase LEARNING_START) \<and>
   fresh ''trained_reward_fn'' = Some (VRewardFn stub_reward_fn) \<and>
   call stub_estimator normalize fresh (rows [1]) (rows [2]) (rows [3]) (rows [4])
     = (Inr \<lparr>shape = [4], elems = [1, 2, 3, 4]\<rparr>, fresh) \<and>
   call stub_estimator normalize exploring (rows [1]) (rows [2]) (rows [3]) (rows [4])
     = entropy_reward stub_estimator normalize exploring (rows [1])"
  using call_routing [of fresh LEARNING_START stub_reward_fn stub_estimator normalize
      "rows [1]" "rows [2]" "rows [3]" "rows [4]"]
    call_routing [of exploring UNSUPERVISED_EXPLORATION stub_reward_fn stub_estimator normalize
      "rows [1]" "rows [2]" "rows [3]" "rows [4]"]
  by (simp add: exploring_eq) (simp add: fresh_def init_def stub_reward_fn_def rows_def)

section \<open>The phase machine\<close>

lemma perform_phase:
  assumes "phase_of self = Some p"
  shows "\<exists>p'. phase_of (perform est fwd self op) = Some p' \<and> rank p \<le> rank p'"
proof (cases op)
  case (Call s a n d)
  then show ?thesis using assms by (simp add: phase_of_def call_frame)
next
  case (EntropyReward s)
  then show ?thesis using assms by (simp add: phase_of_def entropy_reward_frame)
qed (use assms in \<open>auto simp: phase_of_def on_replay_buffer_initialized_def
      set_replay_buffer_def unsupervised_exploration_start_def
      unsupervised_exploration_finish_def reload_def getstate_def setstate_def
      split: option.splits val.splits if_splits\<close>)

lemma run_phase:
  "phase_of self = Some p \<Longrightarrow>
   \<exists>p'. phase_of (run est fwd self ops) = Some p' \<and> rank p \<le> rank p'"
proof (induction ops arbitrary: self p)
  case Nil
  then show ?case by (simp add: run_def)
next
  case (Cons op ops)
  from perform_phase[OF Cons.prems, of est fwd op]
  obtain q where q: "phase_of (perform est fwd self op) = Some q" "rank p \<le> rank q"
    by blast
  from Cons.IH[OF q(1)] obtain p' where
    "phase_of (run est fwd (perform est fwd self op) ops) = Some p'" "rank q \<le> rank p'"
    by blast
  with q(2) show ?case by (auto simp: run_def)
qed

lemma rank_top:
  "rank POLICY_AND_REWARD_LEARNING \<le> rank p' \<Longrightarrow> p' = POLICY_AND_REWARD_LEARNING"
  by (cases p') simp_all

text \<open>
  C2.  A new instance is in \<open>LEARNING_START\<close>.  \<^verbatim>\<open>unsupervised_exploration_start\<close> fails
  with an assertion error and changes nothing unless the phase is \<open>LEARNING_START\<close>, and
  then moves to \<open>UNSUPERVISED_EXPLORATION\<close>; \<^verbatim>\<open>unsupervised_exploration_finish\<close> fails
  likewise unless the phase is \<open>UNSUPERVISED_EXPLORATION\<close>, and then moves to
  \<open>POLICY_AND_REWARD_LEARNING\<close>.  Over any sequence of calls of the methods (buffer
  binding, the two transitions, the reward call, the entropy reward, reading the state
  to save, saving and loading) the phase never moves back, and it never leaves
  \<open>POLICY_AND_REWARD_LEARNING\<close>.
\<close>

theorem phase_machine_linear:
  assumes "phase_of self = Some p"
  shows "phase_of (init rn f k) = Some LEARNING_START \<and>
         unsupervised_exploration_start self =
           (if p = LEARNING_START
            then (Inr (), self(''state'' \<mapsto> VPhase UNSUPERVISED_EXPLORATION))
            else (Inl AssertionError, self)) \<and>
         unsupervised_exploration_finish self =
           (if p = UNSUPERVISED_EXPLORATION
            then (Inr (), self(''state'' \<mapsto> VPhase POLICY_AND_REWARD_LEARNING))
            else (Inl AssertionError, self)) \<and>
         (\<exists>p'. phase_of (run est fwd self ops) = Some p' \<and> rank p \<le> rank p' \<and>
               (p = POLICY_AND_REWARD_LEARNING \<longrightarrow> p' = POLICY_AND_REWARD_LEARNING))"
proof -
  have st: "self ''state'' = Some (VPhase p)"
    using assms by (simp add: phase_of_def split: option.splits val.splits)
  have 1: "phase_of (init rn f k) = Some LEARNING_START"
    by (simp add: phase_of_def init_def)
  have 2: "unsupervised_exploration_start self =
           (if p = LEARNING_START
            then (Inr (), self(''state'' \<mapsto> VPhase UNSUPERVISED_EXPLORATION))
            else (Inl AssertionError, self))"
    using st by (simp add: unsupervised_exploration_start_def)
  have 3: "unsupervised_exploration_finish self =
           (if p = UNSUPERVISED_EXPLORATION
            then (Inr (), self(''state'' \<mapsto> VPhase POLICY_AND_REWARD_LEARNING))
            else (Inl AssertionError, self))"
    using st by (simp add: unsupervised_exploration_finish_def)
  from run_phase[OF assms, of est fwd ops] obtain p' where
    p': "phase_of (run est fwd self ops) = Some p'" "rank p \<le> rank p'" by blast
  then have 4: "\<exists>p'. phase_of (run est fwd self ops) = Some p' \<and> rank p \<le> rank p' \<and>
               (p = POLICY_AND_REWARD_LEARNING \<longrightarrow> p' = POLICY_AND_REWARD_LEARNING)"
    using rank_top by blast
  from 1 2 3 4 show ?thesis by blast
qed

theorem phase_machine_linear_witness:
  "phase_of fresh = Some LEARNING_START \<and>
   fst (unsupervised_exploration_start fresh) = Inr () \<and>
   fst (unsupervised_exploration_finish fresh) = Inl AssertionError \<and>
   snd (unsupervised_exploration_finish fresh) = fresh \<and>
   phase_of (run stub_estimator normalize fresh
               [UnsupervisedExplorationFinish, UnsupervisedExplorationStart,
                UnsupervisedExplorationFinish, UnsupervisedExplorationStart])
     = Some POLICY_AND_REWARD_LEARNING"
  using phase_machine_linear [of fresh LEARNING_START RunningNorm_new stub_reward_fn None
      stub_estimator normalize
      "[UnsupervisedExplorationFinish, UnsupervisedExplorationStart,
        UnsupervisedExplorationFinish, UnsupervisedExplorationStart]"]
  by (simp add: fresh_def init_def phase_of_def run_def unsupervised_exploration_start_def
      unsupervised_exploration_finish_def)

section \<open>The usage error\<close>

text \<open>
  C3.  \<^verbatim>\<open>_entropy_reward\<close> raises the \<^verbatim>\<open>ValueError\<close> with the message ``Replay buffer must
  be supplied before entropy reward can be used'' exactly when the attribute
  \<open>replay_buffer_view\<close> is \<open>None\<close>, and so does \<^verbatim>\<open>__call__\<close> in the exploration phase.
  When it does, the instance is left as it was and no reward is returned.  The error is
  not the assertion error of the phase transitions.
\<close>
theorem entropy_reward_usage_error:
  "(fst (entropy_reward est fwd self s) = Inl usage_error
      \<longleftrightarrow> self ''replay_buffer_view'' = Some VNone) \<and>
   (self ''replay_buffer_view'' = Some VNone \<longrightarrow>
      entropy_reward est fwd self s = (Inl usage_error, self)) \<and>
   (self ''state'' = Some (VPhase UNSUPERVISED_EXPLORATION) \<longrightarrow>
      (fst (call est fwd self s a s' d) = Inl usage_error
         \<longleftrightarrow> self ''replay_buffer_view'' = Some VNone) \<and>
      (self ''replay_buffer_view'' = Some VNone \<longrightarrow>
         call est fwd self s a s' d = (Inl usage_error, self))) \<and>
   (usage_error :: 'x error) \<noteq> AssertionError"
  by (simp add: entropy_reward_usage_iff entropy_reward_unset call_def)

theorem entropy_reward_usage_error_witness:
  "fresh ''replay_buffer_view'' = Some VNone \<and>
   entropy_reward stub_estimator normalize fresh (rows [3]) = (Inl usage_error, fresh) \<and>
   (fresh(''state'' \<mapsto> VPhase UNSUPERVISED_EXPLORATION)) ''state''
     = Some (VPhase UNSUPERVISED_EXPLORATION) \<and>
   call stub_estimator normalize (fresh(''state'' \<mapsto> VPhase UNSUPERVISED_EXPLORATION))
        (rows [3]) (rows [2]) (rows [3]) (rows [4])
     = (Inl usage_error, fresh(''state'' \<mapsto> VPhase UNSUPERVISED_EXPLORATION)) \<and>
   fst (entropy_reward stub_estimator normalize exploring (rows [3])) = Inr (rows [0])"
  using entropy_reward_usage_error [of stub_estimator normalize fresh "rows [3]"
      "rows [2]" "rows [3]" "rows [4]"]
    entropy_reward_usage_error [of stub_estimator normalize
      "fresh(''state'' \<mapsto> VPhase UNSUPERVISED_EXPLORATION)" "rows [3]"
      "rows [2]" "rows [3]" "rows [4]"]
  by (simp add: exploring_reward) (simp add: fresh_def init_def)

section \<open>Binding the replay buffer\<close>

text \<open>
  C8.  After any sequence of calls of \<^verbatim>\<open>set_replay_buffer\<close> the view and the shape are
  the arguments of the last call (the instance is the one a single call with these
  arguments gives), and \<^verbatim>\<open>on_replay_buffer_initialized(wrapper)\<close> is
  \<^verbatim>\<open>set_replay_buffer\<close> on the wrapper's view and shape.
\<close>
theorem set_replay_buffer_last_wins:
  "foldl (\<lambda>obj (v, s). set_replay_buffer obj v s) self (calls @ [(view, shp)])
     = self(''replay_buffer_view'' \<mapsto> VView view, ''obs_shape'' \<mapsto> VTuple shp) \<and>
   foldl (\<lambda>obj (v, s). set_replay_buffer obj v s) self (calls @ [(view, shp)])
     ''replay_buffer_view'' = Some (VView view) \<and>
   foldl (\<lambda>obj (v, s). set_replay_buffer obj v s) self (calls @ [(view, shp)])
     ''obs_shape'' = Some (VTuple shp) \<and>
   on_replay_buffer_initialized self w
     = set_replay_buffer self (buffer_view w) (obs_shape w) \<and>
   on_replay_buffer_initialized self w ''replay_buffer_view'' = Some (VView (buffer_view w)) \<and>
   on_replay_buffer_initialized self w ''obs_shape'' = Some (VTuple (obs_shape w))"
  using foldl_set_replay_buffer [of self calls view shp]
  by (simp add: on_replay_buffer_initialized_def set_replay_buffer_def del: foldl_append)

section \<open>Saving and loading\<close>

text \<open>
  C9.  \<^verbatim>\<open>__getstate__\<close> returns the attribute dictionary without the key
  \<open>replay_buffer_view\<close> and with every other key as it is, \<open>obs_shape\<close> among them;
  after loading, \<open>obs_shape\<close> has the value it had when saved and
  \<open>replay_buffer_view\<close> alone is \<open>None\<close>.
\<close>
theorem getstate_drops_only_view:
  assumes "self ''replay_buffer_view'' = Some v"
  shows "getstate self = Inr (self |` (- {''replay_buffer_view''})) \<and>
         dom (self |` (- {''replay_buffer_view''})) = dom self - {''replay_buffer_view''} \<and>
         (self |` (- {''replay_buffer_view''})) ''obs_shape'' = self ''obs_shape'' \<and>
         reload self = Inr (self(''replay_buffer_view'' \<mapsto> VNone)) \<and>
         (self(''replay_buffer_view'' \<mapsto> VNone)) ''obs_shape'' = self ''obs_shape'' \<and>
         reload (set_replay_buffer self view shp)
           = Inr (self(''replay_buffer_view'' \<mapsto> VNone, ''obs_shape'' \<mapsto> VTuple shp))"
proof -
  have "self(''replay_buffer_view'' := None) = self |` (- {''replay_buffer_view''})"
    by (rule ext) (simp add: restrict_map_def)
  then have 1: "getstate self = Inr (self |` (- {''replay_buffer_view''}))"
    using assms by (simp add: getstate_def)
  have 2: "dom (self |` (- {''replay_buffer_view''})) = dom self - {''replay_buffer_view''}"
    by auto
  have 3: "(self |` (- {''replay_buffer_view''})) ''obs_shape'' = self ''obs_shape''"
    by (simp add: restrict_map_def)
  have 4: "reload self = Inr (self(''replay_buffer_view'' \<mapsto> VNone))"
    using assms by (rule reload_eq)
  have 5: "(self(''replay_buffer_view'' \<mapsto> VNone)) ''obs_shape'' = self ''obs_shape''"
    by simp
  have "set_replay_buffer self view shp ''replay_buffer_view'' = Some (VView view)"
    by (simp add: set_replay_buffer_def)
  from reload_eq[of "set_replay_buffer self view shp" "VView view", OF this]
  have 6: "reload (set_replay_buffer self view shp)
           = Inr (self(''replay_buffer_view'' \<mapsto> VNone, ''obs_shape'' \<mapsto> VTuple shp))"
    by (simp add: set_replay_buffer_def fun_upd_twist)
  from 1 2 3 4 5 6 show ?thesis by blast
qed

theorem getstate_drops_only_view_witness:
  "exploring ''replay_buffer_view'' = Some (VView six_observations) \<and>
   getstate exploring = Inr (exploring |` (- {''replay_buffer_view''})) \<and>
   (exploring |` (- {''replay_buffer_view''})) ''replay_buffer_view'' = None \<and>
   (exploring |` (- {''replay_buffer_view''})) ''obs_shape'' = Some (VTuple [1]) \<and>
   reload exploring = Inr (exploring(''replay_buffer_view'' \<mapsto> VNone)) \<and>
   (exploring(''replay_buffer_view'' \<mapsto> VNone)) ''obs_shape'' = Some (VTuple [1])"
  using getstate_drops_only_view [of exploring "VView six_observations" six_observations "[1]"]
  by (simp add: exploring_attrs restrict_map_def)

text \<open>
  C4.  Saving an instance and loading it again gives an instance that agrees with the
  original on every attribute (phase, \<open>k\<close>, learned reward function, running statistics,
  observation shape) except \<open>replay_buffer_view\<close>, which is \<open>None\<close>.  On the loaded
  instance \<^verbatim>\<open>_entropy_reward\<close> raises the usage error; once \<^verbatim>\<open>set_replay_buffer\<close> has
  been called the loaded instance is the instance the original would be after the same
  call, the usage error is gone, and the reward is returned whenever the reshape, the
  estimator and the normaliser go through.
\<close>
theorem reload_roundtrip:
  assumes "is_instance self"
  shows "reload self = Inr (self(''replay_buffer_view'' \<mapsto> VNone)) \<and>
         is_instance (self(''replay_buffer_view'' \<mapsto> VNone)) \<and>
         (\<forall>a. a \<noteq> ''replay_buffer_view'' \<longrightarrow>
            (self(''replay_buffer_view'' \<mapsto> VNone)) a = self a) \<and>
         entropy_reward est fwd (self(''replay_buffer_view'' \<mapsto> VNone)) s
           = (Inl usage_error, self(''replay_buffer_view'' \<mapsto> VNone)) \<and>
         set_replay_buffer (self(''replay_buffer_view'' \<mapsto> VNone)) view shp
           = set_replay_buffer self view shp \<and>
         fst (entropy_reward est fwd
                (set_replay_buffer (self(''replay_buffer_view'' \<mapsto> VNone)) view shp) s)
           \<noteq> Inl usage_error \<and>
         (\<forall>all_observations k entropies stats out stats'.
            reshape (observations view) (- 1 # shp) = Some all_observations \<and>
            self ''nearest_neighbor_k'' = Some (VInt k) \<and>
            est s all_observations k = Inr entropies \<and>
            self ''entropy_stats'' = Some (VRunningNorm stats) \<and>
            fwd stats entropies = (Inr out, stats') \<longrightarrow>
            entropy_reward est fwd
                (set_replay_buffer (self(''replay_buffer_view'' \<mapsto> VNone)) view shp) s
              = (Inr out,
                 (set_replay_buffer self view shp)(''entropy_stats'' \<mapsto> VRunningNorm stats')))"
proof -
  let ?restored = "self(''replay_buffer_view'' \<mapsto> VNone)"
  from assms obtain v where v: "self ''replay_buffer_view'' = Some v"
    by (auto elim: is_instanceE)
  have 1: "reload self = Inr ?restored" using v by (rule reload_eq)
  have 2: "is_instance ?restored" using assms by (rule is_instance_upd_view)
  have 3: "\<forall>a. a \<noteq> ''replay_buffer_view'' \<longrightarrow> ?restored a = self a" by simp
  have 4: "entropy_reward est fwd ?restored s = (Inl usage_error, ?restored)"
    by (simp add: entropy_reward_unset)
  have 5: "set_replay_buffer ?restored view shp = set_replay_buffer self view shp"
    by (simp add: set_replay_buffer_def)
  have 6: "fst (entropy_reward est fwd (set_replay_buffer ?restored view shp) s)
             \<noteq> Inl usage_error"
    by (simp add: entropy_reward_usage_iff) (simp add: set_replay_buffer_def)
  have 7: "entropy_reward est fwd (set_replay_buffer ?restored view shp) s
              = (Inr out, (set_replay_buffer self view shp)(''entropy_stats'' \<mapsto> VRunningNorm stats'))"
    if "reshape (observations view) (- 1 # shp) = Some all_observations"
      and "self ''nearest_neighbor_k'' = Some (VInt k)"
      and "est s all_observations k = Inr entropies"
      and "self ''entropy_stats'' = Some (VRunningNorm stats)"
      and "fwd stats entropies = (Inr out, stats')"
    for all_observations k entropies stats out stats'
  proof -
    let ?b = "set_replay_buffer self view shp"
    have b: "?b ''replay_buffer_view'' = Some (VView view)"
      "?b ''obs_shape'' = Some (VTuple shp)"
      "?b ''nearest_neighbor_k'' = Some (VInt k)"
      "?b ''entropy_stats'' = Some (VRunningNorm stats)"
      using that by (simp_all add: set_replay_buffer_def)
    have "entropy_reward est fwd ?b s
            = (Inr out, ?b(''entropy_stats'' \<mapsto> VRunningNorm stats'))"
      using that by (simp add: entropy_reward_bound[OF b])
    then show ?thesis by (simp only: 5)
  qed
  have 8: "\<forall>all_observations k entropies stats out stats'.
            reshape (observations view) (- 1 # shp) = Some all_observations \<and>
            self ''nearest_neighbor_k'' = Some (VInt k) \<and>
            est s all_observations k = Inr entropies \<and>
            self ''entropy_stats'' = Some (VRunningNorm stats) \<and>
            fwd stats entropies = (Inr out, stats') \<longrightarrow>
            entropy_reward est fwd (set_replay_buffer ?restored view shp) s
              = (Inr out,
                 (set_replay_buffer self view shp)(''entropy_stats'' \<mapsto> VRunningNorm stats'))"
    by (intro allI impI, elim conjE, rule 7)
  from 1 2 3 4 5 6 8 show ?thesis by (intro conjI)
qed

theorem reload_roundtrip_witness:
  "is_instance exploring \<and>
   reload exploring = Inr (exploring(''replay_buffer_view'' \<mapsto> VNone)) \<and>
   (exploring(''replay_buffer_view'' \<mapsto> VNone)) ''state''
     = Some (VPhase UNSUPERVISED_EXPLORATION) \<and>
   (exploring(''replay_buffer_view'' \<mapsto> VNone)) ''nearest_neighbor_k'' = Some (VInt 5) \<and>
   entropy_reward stub_estimator normalize
       (exploring(''replay_buffer_view'' \<mapsto> VNone)) (rows [3])
     = (Inl usage_error, exploring(''replay_buffer_view'' \<mapsto> VNone)) \<and>
   fst (entropy_reward stub_estimator normalize
         (set_replay_buffer (exploring(''replay_buffer_view'' \<mapsto> VNone))
            six_observations [1]) (rows [3]))
     = Inr (rows [0])"
proof -
  have inst: "is_instance exploring"
    by (simp add: is_instance_def exploring_attrs)
  have fw: "normalize RunningNorm_new (rows [3])
              = (Inr (rows [0]), \<lparr>n_samples = 1, running_mean = 3, running_var = 0\<rparr>)"
    by (simp add: normalize_def RunningNorm_forward_def update_stats_def RunningNorm_new_def
        rows_def)
  note r = reload_roundtrip [OF inst, of stub_estimator normalize "rows [3]"
      six_observations "[1]"]
  from r have a: "reload exploring = Inr (exploring(''replay_buffer_view'' \<mapsto> VNone))"
    by (rule conjunct1)
  from r have b: "entropy_reward stub_estimator normalize
       (exploring(''replay_buffer_view'' \<mapsto> VNone)) (rows [3])
     = (Inl usage_error, exploring(''replay_buffer_view'' \<mapsto> VNone))"
    by blast
  from r have c: "entropy_reward stub_estimator normalize
          (set_replay_buffer (exploring(''replay_buffer_view'' \<mapsto> VNone))
             six_observations [1]) (rows [3])
        = (Inr (rows [0]), (set_replay_buffer exploring six_observations [1])
             (''entropy_stats'' \<mapsto>
                VRunningNorm \<lparr>n_samples = 1, running_mean = 3, running_var = 0\<rparr>))"
    if "reshape (observations six_observations) [- 1, 1] = Some (rows [0, 1, 2, 3, 4, 5])"
      and "exploring ''nearest_neighbor_k'' = Some (VInt 5)"
      and "stub_estimator (rows [3]) (rows [0, 1, 2, 3, 4, 5]) 5 = Inr (rows [3])"
      and "exploring ''entropy_stats'' = Some (VRunningNorm RunningNorm_new)"
      and "normalize RunningNorm_new (rows [3])
             = (Inr (rows [0]), \<lparr>n_samples = 1, running_mean = 3, running_var = 0\<rparr>)"
    using that by blast
  have d: "fst (entropy_reward stub_estimator normalize
         (set_replay_buffer (exploring(''replay_buffer_view'' \<mapsto> VNone))
            six_observations [1]) (rows [3])) = Inr (rows [0])"
    by (subst c [OF reshape_six exploring_attrs(3) _ exploring_attrs(4) fw])
       (simp_all add: stub_estimator_def)
  have e: "(exploring(''replay_buffer_view'' \<mapsto> VNone)) ''state''
             = Some (VPhase UNSUPERVISED_EXPLORATION)"
    "(exploring(''replay_buffer_view'' \<mapsto> VNone)) ''nearest_neighbor_k'' = Some (VInt 5)"
    by (simp_all add: exploring_attrs)
  from inst a e b d show ?thesis by (intro conjI)
qed

section \<open>The entropy reward\<close>

text \<open>
  C5.  With a view bound, \<^verbatim>\<open>_entropy_reward(state)\<close> reads the view's observations,
  reshapes them to \<open>(-1, *obs_shape)\<close> (same elements, leading dimension the size divided
  by the product of \<open>obs_shape\<close>), calls the estimator on \<open>state\<close>, the reshaped
  observations and \<open>nearest_neighbor_k\<close>, passes the entropies to the normaliser's forward
  pass, stores the statistics the forward pass leaves, and returns what it returns.  When
  the estimator gives one entropy per row of \<open>state\<close> and the forward pass keeps the
  shape, the reward has the leading dimension of \<open>state\<close>.
\<close>
theorem entropy_reward_pipeline:
  assumes "self ''replay_buffer_view'' = Some (VView view)"
      and "self ''obs_shape'' = Some (VTuple shp)"
      and "self ''nearest_neighbor_k'' = Some (VInt k)"
      and "self ''entropy_stats'' = Some (VRunningNorm stats)"
  shows "entropy_reward est fwd self s =
           (case reshape (observations view) (- 1 # shp) of
              None \<Rightarrow> (Inl ReshapeError, self)
            | Some all_observations \<Rightarrow>
                (case est s all_observations k of
                   Inl e \<Rightarrow> (Inl (Raised e), self)
                 | Inr entropies \<Rightarrow>
                     (case fst (fwd stats entropies) of
                        Inl e \<Rightarrow> Inl (Raised e) | Inr r \<Rightarrow> Inr r,
                      self(''entropy_stats'' \<mapsto> VRunningNorm (snd (fwd stats entropies)))))) \<and>
         (\<forall>all_observations.
            reshape (observations view) (- 1 # shp) = Some all_observations \<longrightarrow>
            elems all_observations = elems (observations view) \<and>
            shape all_observations
              = nat (int (prod_list (shape (observations view))) div prod_list shp) # map nat shp \<and>
            prod_list (shape all_observations) = prod_list (shape (observations view))) \<and>
         (\<forall>all_observations entropies out.
            reshape (observations view) (- 1 # shp) = Some all_observations \<and>
            est s all_observations k = Inr entropies \<and>
            fst (fwd stats entropies) = Inr out \<and>
            hd (shape entropies) = hd (shape s) \<and> shape out = shape entropies \<longrightarrow>
            fst (entropy_reward est fwd self s) = Inr out \<and> hd (shape out) = hd (shape s))"
proof -
  note eq = entropy_reward_bound [OF assms, of est fwd s]
  have 2: "\<forall>all_observations.
            reshape (observations view) (- 1 # shp) = Some all_observations \<longrightarrow>
            elems all_observations = elems (observations view) \<and>
            shape all_observations
              = nat (int (prod_list (shape (observations view))) div prod_list shp) # map nat shp \<and>
            prod_list (shape all_observations) = prod_list (shape (observations view))"
    using reshape_leading reshape_size by blast
  have 3: "\<forall>all_observations entropies out.
            reshape (observations view) (- 1 # shp) = Some all_observations \<and>
            est s all_observations k = Inr entropies \<and>
            fst (fwd stats entropies) = Inr out \<and>
            hd (shape entropies) = hd (shape s) \<and> shape out = shape entropies \<longrightarrow>
            fst (entropy_reward est fwd self s) = Inr out \<and> hd (shape out) = hd (shape s)"
    by (simp add: eq)
  from eq 2 3 show ?thesis by (intro conjI)
qed

theorem entropy_reward_pipeline_witness:
  "exploring ''replay_buffer_view'' = Some (VView six_observations) \<and>
   exploring ''obs_shape'' = Some (VTuple [1]) \<and>
   exploring ''nearest_neighbor_k'' = Some (VInt 5) \<and>
   exploring ''entropy_stats'' = Some (VRunningNorm RunningNorm_new) \<and>
   reshape (observations six_observations) [- 1, 1] = Some (rows [0, 1, 2, 3, 4, 5]) \<and>
   entropy_reward stub_estimator normalize exploring (rows [3]) =
     (Inr (rows [0]),
      exploring(''entropy_stats'' \<mapsto>
        VRunningNorm \<lparr>n_samples = 1, running_mean = 3, running_var = 0\<rparr>))"
proof -
  have fw: "normalize RunningNorm_new (rows [3])
              = (Inr (rows [0]), \<lparr>n_samples = 1, running_mean = 3, running_var = 0\<rparr>)"
    by (simp add: normalize_def RunningNorm_forward_def update_stats_def RunningNorm_new_def
        rows_def)
  note p = entropy_reward_pipeline [OF exploring_attrs(1-4), of stub_estimator normalize
      "rows [3]"]
  have "entropy_reward stub_estimator normalize exploring (rows [3]) =
     (Inr (rows [0]),
      exploring(''entropy_stats'' \<mapsto>
        VRunningNorm \<lparr>n_samples = 1, running_mean = 3, running_var = 0\<rparr>))"
    by (subst p [THEN conjunct1]) (simp add: reshape_six stub_estimator_def fw)
  with exploring_attrs(1-4) reshape_six show ?thesis by (intro conjI)
qed

text \<open>
  C6.  Two views whose observations have the same elements in the same order and the same
  number of elements, however the leading dimensions are split, give the same entropy
  reward and the same statistics on otherwise equal instances.
\<close>
theorem entropy_reward_batching_agnostic:
  assumes "elems (observations v1) = elems (observations v2)"
      and "prod_list (shape (observations v1)) = prod_list (shape (observations v2))"
  shows "fst (entropy_reward est fwd (self(''replay_buffer_view'' \<mapsto> VView v1)) s)
           = fst (entropy_reward est fwd (self(''replay_buffer_view'' \<mapsto> VView v2)) s) \<and>
         snd (entropy_reward est fwd (self(''replay_buffer_view'' \<mapsto> VView v1)) s)
           = (snd (entropy_reward est fwd (self(''replay_buffer_view'' \<mapsto> VView v2)) s))
               (''replay_buffer_view'' \<mapsto> VView v1)"
proof -
  have r: "reshape (observations v1) newshape = reshape (observations v2) newshape"
    for newshape
    using assms by (rule reshape_cong)
  have t: "self(''replay_buffer_view'' \<mapsto> VView v1, ''entropy_stats'' \<mapsto> n)
            = (self(''replay_buffer_view'' \<mapsto> VView v2, ''entropy_stats'' \<mapsto> n))
                (''replay_buffer_view'' \<mapsto> VView v1)" for n
    by (rule ext) simp
  show ?thesis
    by (simp add: entropy_reward_def r t
        split: option.split val.split sum.split prod.split)
qed

theorem entropy_reward_batching_agnostic_witness:
  "elems (observations six_observations) = elems (observations six_observations_venv) \<and>
   prod_list (shape (observations six_observations))
     = prod_list (shape (observations six_observations_venv)) \<and>
   shape (observations six_observations) \<noteq> shape (observations six_observations_venv) \<and>
   fst (entropy_reward stub_estimator normalize
          (exploring(''replay_buffer_view'' \<mapsto> VView six_observations_venv)) (rows [3]))
     = Inr (rows [0])"
proof -
  have a: "elems (observations six_observations) = elems (observations six_observations_venv)"
    and b: "prod_list (shape (observations six_observations))
              = prod_list (shape (observations six_observations_venv))"
    and c: "shape (observations six_observations) \<noteq> shape (observations six_observations_venv)"
    by (simp_all add: six_observations_def six_observations_venv_def rows_def)
  have e: "exploring(''replay_buffer_view'' \<mapsto> VView six_observations) = exploring"
    using exploring_attrs(1) by (rule map_upd_triv)
  from entropy_reward_batching_agnostic [OF a b, of stub_estimator normalize exploring "rows [3]"]
  have "fst (entropy_reward stub_estimator normalize
          (exploring(''replay_buffer_view'' \<mapsto> VView six_observations_venv)) (rows [3]))
     = Inr (rows [0])"
    by (simp only: e exploring_reward fst_conv)
  with a b c show ?thesis by (intro conjI)
qed

section \<open>The nearest-neighbour parameter\<close>

lemma upd_k_twist:
  "a \<noteq> ''nearest_neighbor_k'' \<Longrightarrow>
   self(''nearest_neighbor_k'' \<mapsto> VInt k, a \<mapsto> v)
     = (self(''nearest_neighbor_k'' \<mapsto> VInt k', a \<mapsto> v))(''nearest_neighbor_k'' \<mapsto> VInt k)"
  by (rule ext) simp

lemma del_k_twist:
  "a \<noteq> ''nearest_neighbor_k'' \<Longrightarrow>
   (self(''nearest_neighbor_k'' \<mapsto> VInt k))(a := None)
     = ((self(''nearest_neighbor_k'' \<mapsto> VInt k'))(a := None))(''nearest_neighbor_k'' \<mapsto> VInt k)"
  by (rule ext) simp

text \<open>
  C10.  The constructor stores whatever integer \<open>k\<close> it is given, zero and negative ones
  too, and \<open>5\<close> when none is given; the result is an instance.  No method looks at
  \<open>k\<close>: on an instance holding \<open>k\<close> every method does what it does on the same instance
  holding any other \<open>k'\<close>, except that the estimator is handed \<open>k\<close>; loading a saved
  state that holds \<open>k\<close> is loading the one that holds \<open>k'\<close>, with \<open>k\<close> stored.
\<close>

theorem nearest_neighbor_k_unchecked:
  "init rn f (Some k) ''nearest_neighbor_k'' = Some (VInt k) \<and>
   init rn f None ''nearest_neighbor_k'' = Some (VInt 5) \<and>
   is_instance (init rn f (Some k)) \<and>
   set_replay_buffer (self(''nearest_neighbor_k'' \<mapsto> VInt k)) view shp
     = (set_replay_buffer (self(''nearest_neighbor_k'' \<mapsto> VInt k')) view shp)
         (''nearest_neighbor_k'' \<mapsto> VInt k) \<and>
   unsupervised_exploration_start (self(''nearest_neighbor_k'' \<mapsto> VInt k))
     = map_prod id (\<lambda>obj. obj(''nearest_neighbor_k'' \<mapsto> VInt k))
         (unsupervised_exploration_start (self(''nearest_neighbor_k'' \<mapsto> VInt k'))) \<and>
   unsupervised_exploration_finish (self(''nearest_neighbor_k'' \<mapsto> VInt k))
     = map_prod id (\<lambda>obj. obj(''nearest_neighbor_k'' \<mapsto> VInt k))
         (unsupervised_exploration_finish (self(''nearest_neighbor_k'' \<mapsto> VInt k'))) \<and>
   entropy_reward est fwd (self(''nearest_neighbor_k'' \<mapsto> VInt k)) s
     = map_prod id (\<lambda>obj. obj(''nearest_neighbor_k'' \<mapsto> VInt k))
         (entropy_reward (\<lambda>obs all_obs j. est obs all_obs k) fwd
            (self(''nearest_neighbor_k'' \<mapsto> VInt k')) s) \<and>
   call est fwd (self(''nearest_neighbor_k'' \<mapsto> VInt k)) s a s' d
     = map_prod id (\<lambda>obj. obj(''nearest_neighbor_k'' \<mapsto> VInt k))
         (call (\<lambda>obs all_obs j. est obs all_obs k) fwd
            (self(''nearest_neighbor_k'' \<mapsto> VInt k')) s a s' d) \<and>
   getstate (self(''nearest_neighbor_k'' \<mapsto> VInt k))
     = map_sum id (\<lambda>state. state(''nearest_neighbor_k'' \<mapsto> VInt k))
         (getstate (self(''nearest_neighbor_k'' \<mapsto> VInt k'))) \<and>
   on_replay_buffer_initialized (self(''nearest_neighbor_k'' \<mapsto> VInt k)) w
     = (on_replay_buffer_initialized (self(''nearest_neighbor_k'' \<mapsto> VInt k')) w)
         (''nearest_neighbor_k'' \<mapsto> VInt k) \<and>
   setstate obj (state(''nearest_neighbor_k'' \<mapsto> VInt k))
     = (setstate obj (state(''nearest_neighbor_k'' \<mapsto> VInt k')))
         (''nearest_neighbor_k'' \<mapsto> VInt k)"
proof -
  have 1: "init rn f (Some k) ''nearest_neighbor_k'' = Some (VInt k)"
    and 2: "init rn f None ''nearest_neighbor_k'' = Some (VInt 5)"
    and 3: "is_instance (init rn f (Some k))"
    by (simp_all add: init_def is_instance_def)
  have 4: "unsupervised_exploration_start (self(''nearest_neighbor_k'' \<mapsto> VInt k))
     = map_prod id (\<lambda>obj. obj(''nearest_neighbor_k'' \<mapsto> VInt k))
         (unsupervised_exploration_start (self(''nearest_neighbor_k'' \<mapsto> VInt k')))"
    by (simp add: unsupervised_exploration_start_def upd_k_twist[of _ self k _ k']
        split: option.split)
  have 5: "unsupervised_exploration_finish (self(''nearest_neighbor_k'' \<mapsto> VInt k))
     = map_prod id (\<lambda>obj. obj(''nearest_neighbor_k'' \<mapsto> VInt k))
         (unsupervised_exploration_finish (self(''nearest_neighbor_k'' \<mapsto> VInt k')))"
    by (simp add: unsupervised_exploration_finish_def upd_k_twist[of _ self k _ k']
        split: option.split)
  have 6: "entropy_reward est fwd (self(''nearest_neighbor_k'' \<mapsto> VInt k)) s
     = map_prod id (\<lambda>obj. obj(''nearest_neighbor_k'' \<mapsto> VInt k))
         (entropy_reward (\<lambda>obs all_obs j. est obs all_obs k) fwd
            (self(''nearest_neighbor_k'' \<mapsto> VInt k')) s)"
    by (simp add: entropy_reward_def upd_k_twist[of _ self k _ k']
        split: option.split val.split sum.split prod.split)
  have 7: "call est fwd (self(''nearest_neighbor_k'' \<mapsto> VInt k)) s a s' d
     = map_prod id (\<lambda>obj. obj(''nearest_neighbor_k'' \<mapsto> VInt k))
         (call (\<lambda>obs all_obs j. est obs all_obs k) fwd
            (self(''nearest_neighbor_k'' \<mapsto> VInt k')) s a s' d)"
    by (simp add: call_def 6 split: option.split val.split sum.split)
  have 8: "set_replay_buffer (self(''nearest_neighbor_k'' \<mapsto> VInt k)) view shp
     = (set_replay_buffer (self(''nearest_neighbor_k'' \<mapsto> VInt k')) view shp)
         (''nearest_neighbor_k'' \<mapsto> VInt k)"
    unfolding set_replay_buffer_def by (rule ext) simp
  have 9: "getstate (self(''nearest_neighbor_k'' \<mapsto> VInt k))
     = map_sum id (\<lambda>state. state(''nearest_neighbor_k'' \<mapsto> VInt k))
         (getstate (self(''nearest_neighbor_k'' \<mapsto> VInt k')))"
    by (simp add: getstate_def del_k_twist[of _ self k k'] split: option.split)
  have 10: "on_replay_buffer_initialized (self(''nearest_neighbor_k'' \<mapsto> VInt k)) w
     = (on_replay_buffer_initialized (self(''nearest_neighbor_k'' \<mapsto> VInt k')) w)
         (''nearest_neighbor_k'' \<mapsto> VInt k)"
    unfolding on_replay_buffer_initialized_def set_replay_buffer_def by (rule ext) simp
  have 11: "setstate obj (state(''nearest_neighbor_k'' \<mapsto> VInt k))
     = (setstate obj (state(''nearest_neighbor_k'' \<mapsto> VInt k')))
         (''nearest_neighbor_k'' \<mapsto> VInt k)"
    unfolding setstate_def by (rule ext) (simp add: map_add_def)
  from 1 2 3 8 4 5 6 7 9 10 11 show ?thesis by (intro conjI)
qed

section \<open>Repeated queries: helper lemmas\<close>

lemma entropy_reward_at:
  assumes "self ''replay_buffer_view'' = Some (VView view)"
      and "self ''obs_shape'' = Some (VTuple shp)"
      and "self ''nearest_neighbor_k'' = Some (VInt k)"
      and "reshape (observations view) (- 1 # shp) = Some all_observations"
      and "est s all_observations k = Inr entropies"
  shows "entropy_reward est fwd (self(''entropy_stats'' \<mapsto> VRunningNorm n)) s =
           (case fst (fwd n entropies) of Inl e \<Rightarrow> Inl (Raised e) | Inr r \<Rightarrow> Inr r,
            self(''entropy_stats'' \<mapsto> VRunningNorm (snd (fwd n entropies))))"
proof -
  let ?self = "self(''entropy_stats'' \<mapsto> VRunningNorm n)"
  have a: "?self ''replay_buffer_view'' = Some (VView view)"
    "?self ''obs_shape'' = Some (VTuple shp)"
    "?self ''nearest_neighbor_k'' = Some (VInt k)"
    "?self ''entropy_stats'' = Some (VRunningNorm n)"
    using assms(1-3) by simp_all
  show ?thesis
    by (subst entropy_reward_bound [OF a]) (simp add: assms(4,5))
qed


lemma forward_steps:
  "normalize RunningNorm_new (rows [0])
     = (Inr (rows [0]), \<lparr>n_samples = 1, running_mean = 0, running_var = 0\<rparr>)"
  "normalize \<lparr>n_samples = 1, running_mean = 0, running_var = 0\<rparr> (rows [2])
     = (Inr (rows [1 / sqrt (1 + 1 / 100000)]),
        \<lparr>n_samples = 2, running_mean = 1, running_var = 1\<rparr>)"
  "normalize \<lparr>n_samples = 2, running_mean = 1, running_var = 1\<rparr> (rows [2])
     = (Inr (rows [(2 / 3) / sqrt (8 / 9 + 1 / 100000)]),
        \<lparr>n_samples = 3, running_mean = 4 / 3, running_var = 8 / 9\<rparr>)"
  by (simp_all add: normalize_def RunningNorm_forward_def update_stats_def RunningNorm_new_def
      rows_def power2_eq_square)

lemma outputs_differ:
  "1 / sqrt (1 + 1 / 100000) \<noteq> (2 / 3) / sqrt (8 / 9 + 1 / 100000 :: real)"
proof
  assume "1 / sqrt (1 + 1 / 100000) = (2 / 3) / sqrt (8 / 9 + 1 / 100000 :: real)"
  then have "(1 / sqrt (1 + 1 / 100000))\<^sup>2 = ((2 / 3) / sqrt (8 / 9 + 1 / 100000 :: real))\<^sup>2"
    by simp
  then show False by (simp add: power_divide)
qed

lemma exploring_stats:
  "exploring(''entropy_stats'' \<mapsto> VRunningNorm RunningNorm_new) = exploring"
  using exploring_attrs(4) by (rule map_upd_triv)

lemma at_exploring:
  "entropy_reward stub_estimator normalize
     (exploring(''entropy_stats'' \<mapsto> VRunningNorm n)) q =
     (case fst (normalize n q) of Inl e \<Rightarrow> Inl (Raised e) | Inr r \<Rightarrow> Inr r,
      exploring(''entropy_stats'' \<mapsto> VRunningNorm (snd (normalize n q))))"
proof -
  have e: "stub_estimator q (rows [0, 1, 2, 3, 4, 5]) 5 = Inr q"
    by (simp add: stub_estimator_def)
  show ?thesis
    using exploring_attrs(1-3) reshape_six e by (rule entropy_reward_at)
qed

lemma warmed_eq:
  "warmed = exploring(''entropy_stats'' \<mapsto>
     VRunningNorm \<lparr>n_samples = 1, running_mean = 0, running_var = 0\<rparr>)"
proof -
  have "entropy_reward stub_estimator normalize exploring (rows [0])
        = entropy_reward stub_estimator normalize
            (exploring(''entropy_stats'' \<mapsto> VRunningNorm RunningNorm_new)) (rows [0])"
    by (simp only: exploring_stats)
  also have "\<dots> = (Inr (rows [0]), exploring(''entropy_stats'' \<mapsto>
             VRunningNorm \<lparr>n_samples = 1, running_mean = 0, running_var = 0\<rparr>))"
    by (simp only: at_exploring forward_steps fst_conv snd_conv sum.case)
  finally show ?thesis by (simp only: warmed_def snd_conv)
qed

lemma warmed_first:
  "entropy_reward stub_estimator normalize warmed (rows [2])
     = (Inr (rows [1 / sqrt (1 + 1 / 100000)]),
        exploring(''entropy_stats'' \<mapsto>
          VRunningNorm \<lparr>n_samples = 2, running_mean = 1, running_var = 1\<rparr>))"
  by (simp only: warmed_eq at_exploring forward_steps fst_conv snd_conv sum.case)

lemma warmed_second:
  "entropy_reward stub_estimator normalize
     (snd (entropy_reward stub_estimator normalize warmed (rows [2]))) (rows [2])
     = (Inr (rows [(2 / 3) / sqrt (8 / 9 + 1 / 100000)]),
        exploring(''entropy_stats'' \<mapsto>
          VRunningNorm \<lparr>n_samples = 3, running_mean = 4 / 3, running_var = 8 / 9\<rparr>))"
  by (simp only: warmed_first at_exploring forward_steps fst_conv snd_conv sum.case)







section \<open>Repeated queries\<close>



text \<open>
  The hypothesis on the statistics is needed.  On the exploring instance that has served
  one query for the row \<open>0\<close>, the query for the row \<open>2\<close> gets
  \<open>1 / sqrt (1 + 1/100000)\<close> and, asked again, \<open>(2/3) / sqrt (8/9 + 1/100000)\<close>: the
  statistics then hold another query's entropy, and each forward pass moves them.
\<close>

lemma other_queries_change_reward:
  "fst (entropy_reward stub_estimator normalize warmed (rows [2]))
     \<noteq> fst (entropy_reward stub_estimator normalize
              (snd (entropy_reward stub_estimator normalize warmed (rows [2]))) (rows [2]))"
  by (subst warmed_second, subst warmed_first)
     (use outputs_differ in \<open>simp add: rows_def\<close>)

end
